theory Spec2Isabelle
  imports Main
begin

section \<open>Strings of the Go standard library\<close>

text \<open>
  A Go string is a sequence of bytes, here a \<open>string\<close> (a list of 8-bit \<open>char\<close>s).
  The functions of package \<open>strings\<close> that gateway.go calls are written out on bytes.
  Where Go decodes UTF-8 (white space, upper-casing), the byte sequences that matter
  are listed explicitly.
\<close>

definition byte :: "char \<Rightarrow> nat" where
  "byte c = of_char c"

text \<open>
  \<open>unicode.IsSpace\<close>: the ASCII white space, and the UTF-8 encodings of U+0085, U+00A0,
  U+1680, U+2000..U+200A, U+2028, U+2029, U+202F, U+205F and U+3000.
\<close>

definition asciiSpace :: "char \<Rightarrow> bool" where
  "asciiSpace c = (byte c \<in> {0x09, 0x0A, 0x0B, 0x0C, 0x0D, 0x20})"

definition utf8Spaces :: "string list" where
  "utf8Spaces =
     [[CHR 0xC2, CHR 0x85], [CHR 0xC2, CHR 0xA0], [CHR 0xE1, CHR 0x9A, CHR 0x80],
      [CHR 0xE2, CHR 0x80, CHR 0x80], [CHR 0xE2, CHR 0x80, CHR 0x81],
      [CHR 0xE2, CHR 0x80, CHR 0x82], [CHR 0xE2, CHR 0x80, CHR 0x83],
      [CHR 0xE2, CHR 0x80, CHR 0x84], [CHR 0xE2, CHR 0x80, CHR 0x85],
      [CHR 0xE2, CHR 0x80, CHR 0x86], [CHR 0xE2, CHR 0x80, CHR 0x87],
      [CHR 0xE2, CHR 0x80, CHR 0x88], [CHR 0xE2, CHR 0x80, CHR 0x89],
      [CHR 0xE2, CHR 0x80, CHR 0x8A],
      [CHR 0xE2, CHR 0x80, CHR 0xA8], [CHR 0xE2, CHR 0x80, CHR 0xA9],
      [CHR 0xE2, CHR 0x80, CHR 0xAF], [CHR 0xE2, CHR 0x81, CHR 0x9F],
      [CHR 0xE3, CHR 0x80, CHR 0x80]]"

text \<open>The number of bytes of the white-space rune the string starts with (0: none).\<close>

definition spaceWidth :: "string \<Rightarrow> nat" where
  "spaceWidth s =
     (case s of
        [] \<Rightarrow> 0
      | c # _ \<Rightarrow>
          if asciiSpace c then 1
          else (case filter (\<lambda>w. take (length w) s = w) utf8Spaces of
                  [] \<Rightarrow> 0
                | w # _ \<Rightarrow> length w))"

function trimLeftSpace :: "string \<Rightarrow> string" where
  "trimLeftSpace s =
     (if spaceWidth s = 0 then s else trimLeftSpace (drop (spaceWidth s) s))"
  by pat_completeness auto
termination
proof (relation "measure length")
  show "wf (measure length)" by simp
next
  fix s :: string
  assume "spaceWidth s \<noteq> 0"
  then have "s \<noteq> []" by (auto simp: spaceWidth_def)
  with \<open>spaceWidth s \<noteq> 0\<close> show "(drop (spaceWidth s) s, s) \<in> measure length"
    by (cases s) auto
qed

text \<open>
  The white-space rune a string ends with, read from the right: UTF-8 is
  self-synchronising, so a suffix that is the encoding of a white-space rune is that
  rune.
\<close>

definition spaceWidthRight :: "string \<Rightarrow> nat" where
  "spaceWidthRight s =
     (case rev s of
        [] \<Rightarrow> 0
      | c # _ \<Rightarrow>
          if asciiSpace c then 1
          else (case filter (\<lambda>w. take (length w) (rev s) = rev w) utf8Spaces of
                  [] \<Rightarrow> 0
                | w # _ \<Rightarrow> length w))"

function trimRightSpace :: "string \<Rightarrow> string" where
  "trimRightSpace s =
     (if spaceWidthRight s = 0 then s
      else trimRightSpace (take (length s - spaceWidthRight s) s))"
  by pat_completeness auto
termination
proof (relation "measure length")
  show "wf (measure length)" by simp
next
  fix s :: string
  assume a: "spaceWidthRight s \<noteq> 0"
  then have "s \<noteq> []" by (auto simp: spaceWidthRight_def)
  with a show "(take (length s - spaceWidthRight s) s, s) \<in> measure length"
    by (cases s) auto
qed

text \<open>\<open>strings.TrimSpace\<close>: all leading and trailing white space removed.\<close>

definition stringsTrimSpace :: "string \<Rightarrow> string" where
  "stringsTrimSpace s = trimRightSpace (trimLeftSpace s)"

text \<open>
  \<open>strings.Split(s, sep)\<close> for a separator of one byte: the substrings between the
  separators, one more than there are separators; the empty string gives one empty part.
\<close>

fun stringsSplit :: "string \<Rightarrow> char \<Rightarrow> string list" where
  "stringsSplit [] sep = [[]]"
| "stringsSplit (c # s) sep =
     (if c = sep then [] # stringsSplit s sep
      else (case stringsSplit s sep of
              [] \<Rightarrow> [[c]]
            | p # ps \<Rightarrow> (c # p) # ps))"

text \<open>
  \<open>strings.Replace(s, old, new, -1)\<close> for a non-empty \<open>old\<close>: one pass from the left
  over the non-overlapping occurrences of \<open>old\<close>; the text put in is not read again.
  (Both calls of gateway.go pass a non-empty constant; with an empty \<open>old\<close> the model
  returns \<open>s\<close>.)
\<close>

function stringsReplaceAll :: "string \<Rightarrow> string \<Rightarrow> string \<Rightarrow> string" where
  "stringsReplaceAll s old new =
     (if old = [] \<or> s = [] then s
      else if take (length old) s = old
           then new @ stringsReplaceAll (drop (length old) s) old new
           else hd s # stringsReplaceAll (tl s) old new)"
  by pat_completeness auto
termination
  by (relation "measure (\<lambda>(s, old, new). length s)") (auto simp: Suc_le_eq)

text \<open>
  \<open>strings.ToUpper\<close>. ASCII letters map to their capitals. Two runes outside ASCII have
  an ASCII capital: U+017F (bytes C5 BF) maps to S and U+0131 (bytes C4 B1) maps to I.
  Every other rune outside ASCII maps to a rune outside ASCII; the model leaves those
  bytes as they are, which no comparison with an ASCII word can tell apart.
\<close>

definition upperByte :: "char \<Rightarrow> char" where
  "upperByte c = (if 0x61 \<le> byte c \<and> byte c \<le> 0x7A then char_of (byte c - 0x20) else c)"

fun stringsToUpper :: "string \<Rightarrow> string" where
  "stringsToUpper [] = []"
| "stringsToUpper [c] = [upperByte c]"
| "stringsToUpper (c # d # s) =
     (if c = CHR 0xC5 \<and> d = CHR 0xBF then CHR ''S'' # stringsToUpper s
      else if c = CHR 0xC4 \<and> d = CHR 0xB1 then CHR ''I'' # stringsToUpper s
      else upperByte c # stringsToUpper (d # s))"

section \<open>Regular expressions\<close>

text \<open>
  Package \<open>regexp\<close> of the Go standard library, as far as gateway.go uses it. A
  regular expression is its syntax tree (the operators of \<open>regexp/syntax\<close>); \<open>x+\<close> and
  \<open>x?\<close> are written with the other operators. Matching follows Go's leftmost-first
  rule: the match begins as far left as possible, and among the matches that begin
  there it is the one a backtracking search finds first (a greedy repetition tries
  one more iteration before it tries to stop).

  The matcher reads bytes where Go reads runes. For the three expressions that
  gateway.go compiles itself the two agree on every string, since only the ASCII
  bytes \<open>.\<close>, \<open>*\<close> and the line feed decide where their groups begin and end.
\<close>

datatype regexp =
    EmptyMatch
  | Literal char
  | AnyCharNotNL
  | BeginText
  | EndText
  | Concat regexp regexp
  | Alternate regexp regexp
  | Star regexp
  | Capture nat regexp

definition Plus :: "regexp \<Rightarrow> regexp" where
  "Plus r = Concat r (Star r)"

definition Quest :: "regexp \<Rightarrow> regexp" where
  "Quest r = Alternate r EmptyMatch"

text \<open>
  A thread of the search: the number of bytes read so far, the text still to read, and
  the groups captured so far (the latest first). \<open>run r t\<close> lists the threads that
  \<open>r\<close> leaves when started from \<open>t\<close>, in the order of preference. An iteration of a
  repetition that reads nothing is dropped.
\<close>

type_synonym thread = "nat \<times> string \<times> (nat \<times> string) list"

function run :: "regexp \<Rightarrow> thread \<Rightarrow> thread list" where
  "run EmptyMatch t = [t]"
| "run (Literal c) (pos, s, caps) =
     (case s of [] \<Rightarrow> [] | x # xs \<Rightarrow> if x = c then [(Suc pos, xs, caps)] else [])"
| "run AnyCharNotNL (pos, s, caps) =
     (case s of [] \<Rightarrow> [] | x # xs \<Rightarrow> if x \<noteq> CHR 0x0A then [(Suc pos, xs, caps)] else [])"
| "run BeginText (pos, s, caps) = (if pos = 0 then [(pos, s, caps)] else [])"
| "run EndText (pos, s, caps) = (if s = [] then [(pos, s, caps)] else [])"
| "run (Concat a b) t = concat (map (run b) (run a t))"
| "run (Alternate a b) t = run a t @ run b t"
| "run (Star a) (pos, s, caps) =
     concat (map (run (Star a))
               (filter (\<lambda>(pos', s', caps'). length s' < length s) (run a (pos, s, caps))))
     @ [(pos, s, caps)]"
| "run (Capture n a) (pos, s, caps) =
     map (\<lambda>(pos', s', caps'). (pos', s', (n, take (pos' - pos) s) # caps'))
       (run a (pos, s, caps))"
  by pat_completeness auto
termination
  by (relation "measures [\<lambda>(r, t). size r, \<lambda>(r, (pos, s, caps)). length s]") auto

text \<open>
  The search for the leftmost match, from position \<open>pos\<close> on: the matched text, then
  the text of the groups 1 to \<open>n\<close> (empty for a group that took no part).
  The empty list is Go's nil: no match.
\<close>

fun findAt :: "regexp \<Rightarrow> nat \<Rightarrow> nat \<Rightarrow> string \<Rightarrow> string list" where
  "findAt r n pos s =
     (case run r (pos, s, []) of
        (pos', s', caps) # _ \<Rightarrow>
          take (pos' - pos) s
          # map (\<lambda>g. case map_of caps g of Some m \<Rightarrow> m | None \<Rightarrow> []) [1 ..< Suc n]
      | [] \<Rightarrow> (case s of [] \<Rightarrow> [] | _ # s' \<Rightarrow> findAt r n (Suc pos) s'))"

fun NumSubexp :: "regexp \<Rightarrow> nat" where
  "NumSubexp (Concat a b) = NumSubexp a + NumSubexp b"
| "NumSubexp (Alternate a b) = NumSubexp a + NumSubexp b"
| "NumSubexp (Star a) = NumSubexp a"
| "NumSubexp (Capture n a) = Suc (NumSubexp a)"
| "NumSubexp _ = 0"

definition FindStringSubmatch :: "regexp \<Rightarrow> string \<Rightarrow> string list" where
  "FindStringSubmatch r s = findAt r (NumSubexp r) 0 s"

definition MatchString :: "regexp \<Rightarrow> string \<Rightarrow> bool" where
  "MatchString r s = (FindStringSubmatch r s \<noteq> [])"

text \<open>
  The three expressions of gateway.go (a backslash makes the next byte a literal):
  \<^verbatim>\<open>(.+)\.\*\<close>, \<^verbatim>\<open>\*\.(.+)\<close> and \<^verbatim>\<open>(.+)\.(.+)\<close>.
\<close>

definition actionWildCardRegex :: regexp where
  "actionWildCardRegex =
     Concat (Capture 1 (Plus AnyCharNotNL)) (Concat (Literal CHR ''.'') (Literal CHR ''*''))"

definition serviceWildCardRegex :: regexp where
  "serviceWildCardRegex =
     Concat (Literal CHR ''*'') (Concat (Literal CHR ''.'') (Capture 1 (Plus AnyCharNotNL)))"

definition serviceActionRegex :: regexp where
  "serviceActionRegex =
     Concat (Capture 1 (Plus AnyCharNotNL))
       (Concat (Literal CHR ''.'') (Capture 2 (Plus AnyCharNotNL)))"

subsection \<open>Compiling an expression\<close>

text \<open>
  \<open>regexp.Compile\<close> on a fragment of Go's syntax: literal ASCII bytes, \<open>.\<close>, \<open>^\<close>,
  \<open>$\<close>, a backslash before an ASCII byte that is neither letter nor digit, the greedy
  repetitions \<open>*\<close>, \<open>+\<close> and \<open>?\<close>, alternation and capturing groups. The
  errors of Go's parser are kept inside the fragment: a repetition with nothing to
  repeat, a repetition of a repetition, a parenthesis without its partner, a backslash
  at the end. An expression that leaves the fragment (a class in brackets, a counted
  repetition, a lazy repetition, a group starting with \<open>(?\<close>, a backslash before a
  letter or digit, a byte outside ASCII) is \<open>NotModelled\<close>: Go may accept it.
  On text outside ASCII the compiled expression reads bytes where Go reads runes.
\<close>

datatype compiled = Compiled regexp | SyntaxError | NotModelled

fun concatOf :: "regexp list \<Rightarrow> regexp" where
  "concatOf [] = EmptyMatch"
| "concatOf [r] = r"
| "concatOf (r # rs) = Concat r (concatOf rs)"

fun alternateOf :: "regexp list \<Rightarrow> regexp" where
  "alternateOf [] = EmptyMatch"
| "alternateOf [r] = r"
| "alternateOf (r # rs) = Alternate r (alternateOf rs)"

text \<open>
  A frame of the parser: the alternatives already closed and the items of the
  concatenation being read, both with the latest first.
\<close>

type_synonym frame = "regexp list \<times> regexp list"

definition closeFrame :: "frame \<Rightarrow> regexp" where
  "closeFrame fr = alternateOf (rev (concatOf (rev (snd fr)) # fst fr))"

definition isalnum :: "char \<Rightarrow> bool" where
  "isalnum c = ((0x30 \<le> byte c \<and> byte c \<le> 0x39)
               \<or> (0x41 \<le> byte c \<and> byte c \<le> 0x5A)
               \<or> (0x61 \<le> byte c \<and> byte c \<le> 0x7A))"

definition repeatOp :: "char \<Rightarrow> regexp \<Rightarrow> regexp" where
  "repeatOp c r = (if c = CHR ''*'' then Star r else if c = CHR ''+'' then Plus r else Quest r)"

text \<open>
  \<open>parse t fr stack ncap rep\<close>: the text left, the open frame, the frames of the
  enclosing groups with their numbers, the number of groups opened so far, and whether
  the item read last was a repetition. \<open>CHR 0x5C\<close> is the backslash.
\<close>

fun parse :: "string \<Rightarrow> frame \<Rightarrow> (nat \<times> frame) list \<Rightarrow> nat \<Rightarrow> bool \<Rightarrow> compiled" where
  "parse [] fr stack ncap rep = (if stack = [] then Compiled (closeFrame fr) else SyntaxError)"
| "parse (c # t) fr stack ncap rep =
     (if c = CHR ''('' then
        (if take 1 t = ''?'' then NotModelled
         else parse t ([], []) ((Suc ncap, fr) # stack) (Suc ncap) False)
      else if c = CHR '')'' then
        (case stack of
           [] \<Rightarrow> SyntaxError
         | (n, outer) # stack' \<Rightarrow>
             parse t (fst outer, Capture n (closeFrame fr) # snd outer) stack' ncap False)
      else if c = CHR ''|'' then
        parse t (concatOf (rev (snd fr)) # fst fr, []) stack ncap False
      else if c = CHR ''*'' \<or> c = CHR ''+'' \<or> c = CHR ''?'' then
        (if rep then (if c = CHR ''?'' then NotModelled else SyntaxError)
         else (case snd fr of
                 [] \<Rightarrow> SyntaxError
               | r # items \<Rightarrow> parse t (fst fr, repeatOp c r # items) stack ncap True))
      else if c = CHR 0x5C then
        (case t of
           [] \<Rightarrow> SyntaxError
         | e # t' \<Rightarrow>
             if byte e < 0x80 \<and> \<not> isalnum e
             then parse t' (fst fr, Literal e # snd fr) stack ncap False
             else NotModelled)
      else if c = CHR ''.'' then parse t (fst fr, AnyCharNotNL # snd fr) stack ncap False
      else if c = CHR ''^'' then parse t (fst fr, BeginText # snd fr) stack ncap False
      else if c = CHR ''$'' then parse t (fst fr, EndText # snd fr) stack ncap False
      else if c = CHR ''['' \<or> c = CHR ''{'' \<or> 0x80 \<le> byte c then NotModelled
      else parse t (fst fr, Literal c # snd fr) stack ncap False)"

definition regexpCompile :: "string \<Rightarrow> compiled" where
  "regexpCompile expr = parse expr ([], []) [] 0 False"

text \<open>
  The regular-expression library as \<open>shouldInclude\<close> sees it: \<open>regexp.Compile\<close>
  answers an error (\<open>None\<close>) or an expression, of which only \<open>MatchString\<close> is used.
  \<open>shouldInclude\<close> takes this function as its first argument, so what is proved of
  it for every such function holds for Go's library whatever syntax it accepts;
  \<open>goRegexp\<close> is the library on the fragment above.
\<close>

type_synonym regexpLibrary = "string \<Rightarrow> (string \<Rightarrow> bool) option"

definition goRegexp :: regexpLibrary where
  "goRegexp expr =
     (case regexpCompile expr of
        Compiled r \<Rightarrow> Some (MatchString r)
      | SyntaxError \<Rightarrow> None
      | NotModelled \<Rightarrow> None)"

section \<open>The whitelist\<close>

fun shouldInclude :: "regexpLibrary \<Rightarrow> string list \<Rightarrow> string \<Rightarrow> bool" where
  "shouldInclude compile [] act = False"
| "shouldInclude compile (item # whitelist) act =
     (if item = ''**'' \<or> item = ''*.*'' then True
      else
        (let whitelistService = FindStringSubmatch actionWildCardRegex item;
             actionService = FindStringSubmatch serviceActionRegex act
         in if length whitelistService > 0 \<and> whitelistService ! 1 \<noteq> []
               \<and> length actionService > 1 \<and> length whitelistService > 1
               \<and> actionService ! 1 = whitelistService ! 1
            then True
            else
              (let whitelistAction = FindStringSubmatch serviceWildCardRegex item;
                   actionName = FindStringSubmatch serviceActionRegex act
               in if length whitelistAction > 0 \<and> whitelistAction ! 1 \<noteq> []
                     \<and> length actionName > 2 \<and> length whitelistAction > 1
                     \<and> actionName ! 2 = whitelistAction ! 1
                  then True
                  else (case compile item of
                          Some matches \<Rightarrow>
                            if matches act then True else shouldInclude compile whitelist act
                        | None \<Rightarrow> shouldInclude compile whitelist act))))"

section \<open>Action handlers\<close>

text \<open>
  A panic of the Go program is a value: the message of the explicit \<open>panic\<close> call of
  \<open>aliasPath\<close>, or the key whose single-value type assertion failed.
\<close>

datatype panic = InvalidAliasFormat string | TypeAssertion string

text \<open>
  The struct \<open>actionHandler\<close>. A Go \<open>map[string]bool\<close> is an association list (its
  keys are distinct); \<open>None\<close> is the nil map. The field \<open>context\<close> is set by
  \<open>populateActionsRouter\<close> before a handler is bound; the functions that use it take
  the collaborators it gives access to as an argument.
\<close>

record actionHandler =
  routePath :: string
  "alias" :: string
  action :: string
  acceptedMethodsCache :: "(string \<times> bool) list option"

definition aliasParts :: "string \<Rightarrow> string list" where
  "aliasParts a = stringsSplit (stringsTrimSpace a) CHR '' ''"

definition aliasPath :: "actionHandler \<Rightarrow> panic + string" where
  "aliasPath handler =
     (if alias handler \<noteq> [] then
        (let parts = aliasParts (alias handler) in
         if length parts = 1 then Inr (parts ! 0)
         else if length parts = 2 then Inr (parts ! 1)
         else Inl (InvalidAliasFormat (''Invalid alias format! -> '' @ alias handler)))
      else Inr [])"

definition pattern :: "actionHandler \<Rightarrow> panic + string" where
  "pattern handler =
     (let actionPath = stringsReplaceAll (action handler) ''.'' ''/'' in
      case aliasPath handler of
        Inl e \<Rightarrow> Inl e
      | Inr aPath \<Rightarrow>
          (let fullPath = (if aPath \<noteq> [] then routePath handler @ ''/'' @ aPath
                           else routePath handler @ ''/'' @ actionPath)
           in Inr (stringsReplaceAll fullPath ''//'' ''/'')))"

definition validMethods :: "string list" where
  "validMethods = [''GET'', ''POST'', ''PUT'', ''DELETE'']"

definition validMethod :: "string \<Rightarrow> bool" where
  "validMethod method = (method \<in> set validMethods)"

definition allMethods :: "(string \<times> bool) list" where
  "allMethods = [(''GET'', True), (''POST'', True), (''PUT'', True), (''DELETE'', True)]"

text \<open>
  \<open>acceptedMethods\<close> writes the cache field, so it returns the handler as well.
\<close>

definition acceptedMethods :: "actionHandler \<Rightarrow> (string \<times> bool) list \<times> actionHandler" where
  "acceptedMethods handler =
     (case acceptedMethodsCache handler of
        Some cache \<Rightarrow> (cache, handler)
      | None \<Rightarrow>
          (let fallback = (allMethods, handler\<lparr>acceptedMethodsCache := Some allMethods\<rparr>) in
           if alias handler \<noteq> [] then
             (let parts = aliasParts (alias handler) in
              if length parts = 2 then
                (let method = stringsToUpper (parts ! 0) in
                 if validMethod method
                 then ([(method, True)],
                       handler\<lparr>acceptedMethodsCache := Some [(method, True)]\<rparr>)
                 else fallback)
              else fallback)
           else fallback))"

text \<open>Reading \<open>methods[k]\<close>: a key that is absent reads as false.\<close>

definition accepts :: "(string \<times> bool) list \<Rightarrow> string \<Rightarrow> bool" where
  "accepts methods k = (case map_of methods k of Some b \<Rightarrow> b | None \<Rightarrow> False)"

section \<open>Payloads, requests and responses\<close>

text \<open>
  A value of type \<open>interface{}\<close>, by its dynamic type: the types gateway.go asserts,
  and \<open>DOther\<close> for every other one.
\<close>

datatype dyn =
    DNil
  | DBool bool
  | DString string
  | DStringSlice "string list"
  | DStringMap "(string \<times> string) list"
  | DMap "(string \<times> dyn) list"
  | DMapSlice "(string \<times> dyn) list list"
  | DOther

type_synonym dynmap = "(string \<times> dyn) list"

text \<open>A \<open>moleculer.Payload\<close>: an error with its message, or a value.\<close>

datatype payload = PayloadError string | PayloadValue dyn

fun IsError :: "payload \<Rightarrow> bool" where
  "IsError (PayloadError _) = True"
| "IsError (PayloadValue _) = False"

text \<open>
  The collaborators outside the repository: the RPC call of the context (the value
  received from the channel it returns), the JSON serializer, the payload's own
  reading as a list of maps, and the choice the Go runtime makes when a \<open>range\<close>
  statement visits the keys of a map (see \<open>pickOrder\<close>). Logging is left out.
\<close>

record collaborators =
  Call :: "string \<Rightarrow> payload \<Rightarrow> payload"
  PayloadToBytes :: "payload \<Rightarrow> string"
  BytesToPayload :: "string \<Rightarrow> payload"
  MapArray :: "payload \<Rightarrow> dynmap list"
  RangeOrder :: "nat list"

text \<open>
  An \<open>http.Request\<close> as the handler reads it: the method, what \<open>ParseForm\<close> answers
  (an error, or the form values by name) and what reading the body answers.
\<close>

record request =
  Method :: string
  ParseForm :: "string + (string \<times> string list) list"
  Body :: "string + string"

text \<open>What a handler does to its \<open>http.ResponseWriter\<close>, in order.\<close>

datatype response_write = WriteHeader nat | Write string

definition succesStatusCode :: nat where "succesStatusCode = 200"
definition errorStatusCode :: nat where "errorStatusCode = 500"

definition sendReponse :: "collaborators \<Rightarrow> payload \<Rightarrow> response_write list" where
  "sendReponse c result =
     (let json = PayloadToBytes c result in
      [WriteHeader (if IsError result then errorStatusCode else succesStatusCode),
       Write json])"

fun joinSpace :: "string list \<Rightarrow> string" where
  "joinSpace [] = []"
| "joinSpace [x] = x"
| "joinSpace (x # y # ys) = x @ '' '' @ joinSpace (y # ys)"

text \<open>
  Go leaves open the order in which a \<open>range\<close> statement visits the keys of a map.
  The runtime's choice is a list of numbers: each number picks, among the keys not yet
  visited, the key visited next; the keys left when the numbers run out are visited as
  they stand. Whatever the numbers, every key is visited once, and every order of
  distinct keys is the choice of some numbers.
\<close>

fun pickOrder :: "nat list \<Rightarrow> 'a list \<Rightarrow> 'a list" where
  "pickOrder [] keys = keys"
| "pickOrder (n # picks) keys =
     (if keys = [] then []
      else (let i = n mod length keys
            in keys ! i # pickOrder picks (take i keys @ drop (Suc i) keys)))"

definition invalidHttpMethodError :: "collaborators \<Rightarrow> (string \<times> bool) list \<Rightarrow> response_write list" where
  "invalidHttpMethodError c methods =
     (let methodNames = pickOrder (RangeOrder c) (map fst methods) in
      sendReponse c (PayloadError
        (''Invalid HTTP Method - accepted methods: ['' @ joinSpace methodNames @ '']'')))"

definition paramsFromRequestForm :: "request \<Rightarrow> string + dynmap" where
  "paramsFromRequestForm req =
     (case ParseForm req of
        Inl err \<Rightarrow> Inl err
      | Inr form \<Rightarrow>
          Inr (map (\<lambda>(name, v). if length v = 1 then (name, DString (v ! 0))
                                  else (name, DStringSlice v)) form))"

definition paramsFromRequest :: "collaborators \<Rightarrow> request \<Rightarrow> payload" where
  "paramsFromRequest c req =
     (case paramsFromRequestForm req of
        Inr mvalues \<Rightarrow>
          if length mvalues > 0 then PayloadValue (DMap mvalues)
          else (case Body req of
                  Inl err \<Rightarrow> PayloadError (''Error trying to parse request body. Error: '' @ err)
                | Inr bts \<Rightarrow> BytesToPayload c bts)
      | Inl err \<Rightarrow> PayloadError (''Error trying to parse request form values. Error: '' @ err))"

text \<open>
  The statement that the four accepting branches of \<open>ServeHTTP\<close> share: the action is
  called with the parameters of the request and its result is sent.
\<close>

definition callAction :: "collaborators \<Rightarrow> actionHandler \<Rightarrow> request \<Rightarrow> response_write list" where
  "callAction c handler req =
     sendReponse c (Call c (action handler) (paramsFromRequest c req))"

definition ServeHTTP :: "collaborators \<Rightarrow> actionHandler \<Rightarrow> request \<Rightarrow> response_write list \<times> actionHandler" where
  "ServeHTTP c handler req =
     (let (methods, handler') = acceptedMethods handler in
      (if Method req = ''GET'' then
         (if accepts methods ''GET'' then callAction c handler' req else [])
       else if Method req = ''POST'' then
         (if accepts methods ''POST'' then callAction c handler' req else [])
       else if Method req = ''PUT'' then
         (if accepts methods ''PUT'' then callAction c handler' req else [])
       else if Method req = ''DELETE'' then
         (if accepts methods ''DELETE'' then callAction c handler' req else [])
       else invalidHttpMethodError c methods,
       handler'))"

section \<open>The route table\<close>

text \<open>
  A Go \<open>map[string]interface{}\<close> is an association list with distinct keys, read with
  \<open>map_of\<close>. A single-value type assertion \<open>m[k].(T)\<close> panics when the key is absent or
  holds a value of another type; the two-value form answers \<open>false\<close> instead.

  \<open>invertStringMap\<close> ranges over a map, in an order that Go leaves open: the order of
  the association list stands for the order of that run, and what is proved for every
  list holds for every order. A later entry overwrites an earlier one.
\<close>

definition invertStringMap :: "(string \<times> string) list \<Rightarrow> (string \<rightharpoonup> string)" where
  "invertStringMap entries = fold (\<lambda>(key, val) out. out(val \<mapsto> key)) entries Map.empty"

text \<open>The loop of \<open>createActionHandlers\<close> over the actions.\<close>

fun bindActions :: "(string \<rightharpoonup> string) \<Rightarrow> string \<Rightarrow> string \<Rightarrow> string list \<Rightarrow> actionHandler list" where
  "bindActions actionToAlias mappingPolicy path [] = []"
| "bindActions actionToAlias mappingPolicy path (act # actions) =
     (let (actionAlias, exists) =
            (case actionToAlias act of Some a \<Rightarrow> (a, True) | None \<Rightarrow> ([], False))
      in if \<not> exists \<and> mappingPolicy = ''restrict''
         then bindActions actionToAlias mappingPolicy path actions
         else \<lparr>routePath = path, alias = actionAlias, action = act,
                acceptedMethodsCache = None\<rparr>
              # bindActions actionToAlias mappingPolicy path actions)"

text \<open>
  The two optional keys of a route as \<open>createActionHandlers\<close> reads them, each with
  the value it takes when the key is absent or holds a value of another type.
\<close>

definition routeMappingPolicy :: "dynmap \<Rightarrow> string" where
  "routeMappingPolicy route =
     (case map_of route ''mappingPolicy'' of Some (DString p) \<Rightarrow> p | _ \<Rightarrow> ''all'')"

definition routeAliases :: "dynmap \<Rightarrow> (string \<times> string) list" where
  "routeAliases route =
     (case map_of route ''aliases'' of Some (DStringMap a) \<Rightarrow> a | _ \<Rightarrow> [])"

definition createActionHandlers :: "dynmap \<Rightarrow> string list \<Rightarrow> panic + actionHandler list" where
  "createActionHandlers route actions =
     (case map_of route ''path'' of
        Some (DString path) \<Rightarrow>
          (let mappingPolicy = routeMappingPolicy route;
               aliases = routeAliases route;
               actionToAlias = invertStringMap aliases
           in Inr (bindActions actionToAlias mappingPolicy path actions))
      | _ \<Rightarrow> Inl (TypeAssertion ''path''))"

text \<open>The query \<open>fetchServices\<close> sends to the registry.\<close>

definition servicesQuery :: payload where
  "servicesQuery =
     PayloadValue (DMap [(''onlyAvailable'', DBool True), (''withActions'', DBool True)])"

definition fetchServices :: "collaborators \<Rightarrow> dynmap list" where
  "fetchServices c =
     (let services = Call c ''$node.services'' servicesQuery
      in if IsError services then [] else MapArray c services)"

text \<open>The two inner loops of \<open>filterActions\<close>: the actions of one service, and the services.\<close>

fun actionsOfService :: "regexpLibrary \<Rightarrow> string list \<Rightarrow> dynmap \<Rightarrow> dynmap list \<Rightarrow> panic + string list" where
  "actionsOfService compile whitelist service [] = Inr []"
| "actionsOfService compile whitelist service (act # actions) =
     (case map_of service ''name'' of
        Some (DString serviceName) \<Rightarrow>
          (case map_of act ''name'' of
             Some (DString actionName) \<Rightarrow>
               (let actionFullName = serviceName @ ''.'' @ actionName in
                case actionsOfService compile whitelist service actions of
                  Inl e \<Rightarrow> Inl e
                | Inr rest \<Rightarrow>
                    if shouldInclude compile whitelist actionFullName
                    then Inr (actionFullName # rest) else Inr rest)
           | _ \<Rightarrow> Inl (TypeAssertion ''name''))
      | _ \<Rightarrow> Inl (TypeAssertion ''name''))"

fun actionsOfServices :: "regexpLibrary \<Rightarrow> string list \<Rightarrow> dynmap list \<Rightarrow> panic + string list" where
  "actionsOfServices compile whitelist [] = Inr []"
| "actionsOfServices compile whitelist (service # services) =
     (case map_of service ''actions'' of
        Some (DMapSlice actions) \<Rightarrow>
          (case actionsOfService compile whitelist service actions of
             Inl e \<Rightarrow> Inl e
           | Inr filtered \<Rightarrow>
               (case actionsOfServices compile whitelist services of
                  Inl e \<Rightarrow> Inl e
                | Inr rest \<Rightarrow> Inr (filtered @ rest)))
      | _ \<Rightarrow> Inl (TypeAssertion ''actions''))"

text \<open>The loop of \<open>filterActions\<close> over the routes.\<close>

fun filterRoutes :: "regexpLibrary \<Rightarrow> dynmap list \<Rightarrow> dynmap list \<Rightarrow> panic + actionHandler list" where
  "filterRoutes compile [] services = Inr []"
| "filterRoutes compile (route # routes) services =
     (case (case map_of route ''whitelist'' of
              None \<Rightarrow> Inr [''**'']
            | Some (DStringSlice w) \<Rightarrow> Inr w
            | Some _ \<Rightarrow> Inl (TypeAssertion ''whitelist'')) of
        Inl e \<Rightarrow> Inl e
      | Inr whitelist \<Rightarrow>
          (case actionsOfServices compile whitelist services of
             Inl e \<Rightarrow> Inl e
           | Inr filteredActions \<Rightarrow>
               (case createActionHandlers route filteredActions of
                  Inl e \<Rightarrow> Inl e
                | Inr handlers \<Rightarrow>
                    (case filterRoutes compile routes services of
                       Inl e \<Rightarrow> Inl e
                     | Inr rest \<Rightarrow> Inr (handlers @ rest)))))"

definition filterActions :: "regexpLibrary \<Rightarrow> dynmap \<Rightarrow> dynmap list \<Rightarrow> panic + actionHandler list" where
  "filterActions compile settings services =
     (case map_of settings ''routes'' of
        Some (DMapSlice routes) \<Rightarrow> filterRoutes compile routes services
      | _ \<Rightarrow> Inl (TypeAssertion ''routes''))"

text \<open>
  \<open>populateActionsRouter\<close>: every handler is handed to the router under its pattern.
  The result lists these bindings in order; the router itself is outside the repository.
\<close>

fun bindHandlers :: "actionHandler list \<Rightarrow> panic + (string \<times> actionHandler) list" where
  "bindHandlers [] = Inr []"
| "bindHandlers (actionHand # handlers) =
     (case pattern actionHand of
        Inl e \<Rightarrow> Inl e
      | Inr path \<Rightarrow>
          (case bindHandlers handlers of
             Inl e \<Rightarrow> Inl e
           | Inr rest \<Rightarrow> Inr ((path, actionHand) # rest)))"

definition populateActionsRouter :: "regexpLibrary \<Rightarrow> collaborators \<Rightarrow> dynmap \<Rightarrow> panic + (string \<times> actionHandler) list" where
  "populateActionsRouter compile c settings =
     (case filterActions compile settings (fetchServices c) of
        Inl e \<Rightarrow> Inl e
      | Inr handlers \<Rightarrow> bindHandlers handlers)"

section \<open>Notions used in the statements\<close>

text \<open>The methods a \<open>map[string]bool\<close> accepts: the keys that read as true.\<close>

definition methodSet :: "(string \<times> bool) list \<Rightarrow> string set" where
  "methodSet methods = {k. accepts methods k}"

text \<open>
  The cache of a handler is sound when it is unset, as \<open>createActionHandlers\<close> leaves
  it, or holds what \<open>acceptedMethods\<close> computes from the alias, as \<open>acceptedMethods\<close>
  leaves it. No other code writes the field.
\<close>

definition cacheSound :: "actionHandler \<Rightarrow> bool" where
  "cacheSound handler =
     (case acceptedMethodsCache handler of
        None \<Rightarrow> True
      | Some cache \<Rightarrow> cache = fst (acceptedMethods (handler\<lparr>acceptedMethodsCache := None\<rparr>)))"

text \<open>
  The tokens of a string that white space separates, as \<open>strings.Fields\<close> gives
  them. This is the notion of the specification; the code itself splits the trimmed
  alias at every single space (\<open>aliasParts\<close>).
\<close>

function whitespaceTokens :: "string \<Rightarrow> string list" where
  "whitespaceTokens s =
     (if s = [] then []
      else if spaceWidth s \<noteq> 0 then whitespaceTokens (drop (spaceWidth s) s)
      else (let rest = whitespaceTokens (tl s) in
            if tl s = [] \<or> spaceWidth (tl s) \<noteq> 0 then [hd s] # rest
            else (case rest of [] \<Rightarrow> [[hd s]] | t # ts \<Rightarrow> (hd s # t) # ts)))"
  by pat_completeness auto
termination
  by (relation "measure length") auto

text \<open>A string whose white space, wherever it stands, is the space byte.\<close>

fun spacesOnly :: "string \<Rightarrow> bool" where
  "spacesOnly [] = True"
| "spacesOnly (c # s) = ((spaceWidth (c # s) \<noteq> 0 \<longrightarrow> c = CHR '' '') \<and> spacesOnly s)"

text \<open>The status codes written to a response, in order.\<close>

definition statuses :: "response_write list \<Rightarrow> nat list" where
  "statuses ws = concat (map (\<lambda>w. case w of WriteHeader n \<Rightarrow> [n] | Write _ \<Rightarrow> []) ws)"

text \<open>
  A route of the shape the gateway's settings give it: a string under \<open>path\<close>, and
  under \<open>whitelist\<close> nothing or a list of strings.
\<close>

definition routeShaped :: "dynmap \<Rightarrow> bool" where
  "routeShaped route =
     ((case map_of route ''path'' of Some (DString _) \<Rightarrow> True | _ \<Rightarrow> False)
      \<and> (case map_of route ''whitelist'' of
            None \<Rightarrow> True
          | Some (DStringSlice _) \<Rightarrow> True
          | Some _ \<Rightarrow> False))"


text \<open>\<open>defaultRoutes\<close> of gateway.go.\<close>

definition defaultRoutes :: "dynmap list" where
  "defaultRoutes =
     [[(''path'', DString ''/''), (''whitelist'', DStringSlice [''**'']),
       (''mappingPolicy'', DString ''all''), (''authorization'', DBool False)]]"

section \<open>Properties\<close>

subsection \<open>White space and tokens\<close>

declare whitespaceTokens.simps [simp del] trimLeftSpace.simps [simp del]
  trimRightSpace.simps [simp del]

lemma spaceWidth_space [simp]: "spaceWidth (CHR '' '' # s) = 1"
  by (simp add: spaceWidth_def asciiSpace_def byte_def)

lemma spaceWidth_Nil [simp]: "spaceWidth [] = 0"
  by (simp add: spaceWidth_def)

lemma asciiSpace_space: "asciiSpace (CHR '' '')"
  by (simp add: asciiSpace_def byte_def)

lemma spacesOnly_width:
  "spacesOnly (c # s) \<Longrightarrow> spaceWidth (c # s) = (if c = CHR '' '' then 1 else 0)"
  by (cases "c = CHR '' ''") simp_all

lemma spacesOnly_append_right: "spacesOnly (xs @ ys) \<Longrightarrow> spacesOnly ys"
  by (induction xs) simp_all

lemma utf8Spaces_nonempty: "w \<in> set utf8Spaces \<Longrightarrow> w \<noteq> []"
  by (auto simp: utf8Spaces_def)

lemma utf8Spaces_hd: "w \<in> set utf8Spaces \<Longrightarrow> hd w \<noteq> CHR '' ''"
  by (auto simp: utf8Spaces_def)

lemma spaceWidth_append: "spaceWidth x \<noteq> 0 \<Longrightarrow> spaceWidth (x @ y) \<noteq> 0"
proof (cases x)
  case Nil
  then show "spaceWidth x \<noteq> 0 \<Longrightarrow> ?thesis" by simp
next
  case (Cons c x')
  assume nz: "spaceWidth x \<noteq> 0"
  show ?thesis
  proof (cases "asciiSpace c")
    case True
    then show ?thesis using Cons by (simp add: spaceWidth_def)
  next
    case False
    let ?f = "filter (\<lambda>w. take (length w) x = w) utf8Spaces"
    let ?g = "filter (\<lambda>w. take (length w) (x @ y) = w) utf8Spaces"
    have "?f \<noteq> []"
    proof
      assume "?f = []"
      then have "spaceWidth x = 0" using False Cons by (simp add: spaceWidth_def)
      with nz show False by simp
    qed
    then obtain w where "w \<in> set ?f" by (cases ?f) auto
    then have w: "w \<in> set utf8Spaces" and t: "take (length w) x = w" by simp_all
    have "length (take (length w) x) = length w" using t by simp
    then have "length w \<le> length x" by simp
    with t have "take (length w) (x @ y) = w" by simp
    with w have "w \<in> set ?g" by (simp del: take_append)
    then have "?g \<noteq> []" by (metis empty_iff empty_set)
    then obtain v vs where g: "?g = v # vs" by (meson list.exhaust)
    then have "v \<in> set ?g" by (simp del: take_append)
    then have "v \<in> set utf8Spaces" by (simp del: take_append)
    then have "v \<noteq> []" by (rule utf8Spaces_nonempty)
    then show ?thesis using False Cons g by (simp add: spaceWidth_def del: take_append)
  qed
qed

lemma spacesOnly_append_left: "spacesOnly (xs @ ys) \<Longrightarrow> spacesOnly xs"
proof (induction xs)
  case Nil
  then show ?case by simp
next
  case (Cons c xs)
  then have "spacesOnly xs" by simp
  moreover have "spaceWidth (c # xs) \<noteq> 0 \<longrightarrow> c = CHR '' ''"
  proof
    assume "spaceWidth (c # xs) \<noteq> 0"
    then have "spaceWidth ((c # xs) @ ys) \<noteq> 0" by (rule spaceWidth_append)
    with Cons.prems show "c = CHR '' ''" by simp
  qed
  ultimately show ?case by simp
qed

lemma spaceWidth_utf8Spaces:
  assumes "w \<in> set utf8Spaces"
  shows "spaceWidth w \<noteq> 0"
proof -
  from utf8Spaces_nonempty [OF assms] obtain c w' where c: "w = c # w'"
    by (meson list.exhaust)
  show ?thesis
  proof (cases "asciiSpace c")
    case True
    then show ?thesis using c by (simp add: spaceWidth_def)
  next
    case False
    let ?f = "filter (\<lambda>v. take (length v) w = v) utf8Spaces"
    have "w \<in> set ?f" using assms by simp
    then have "?f \<noteq> []" by (metis empty_iff empty_set)
    then obtain v vs where f: "?f = v # vs" by (meson list.exhaust)
    then have "v \<in> set ?f" by simp
    then have "v \<in> set utf8Spaces" by simp
    then have "v \<noteq> []" by (rule utf8Spaces_nonempty)
    then show ?thesis using False c f by (simp add: spaceWidth_def)
  qed
qed

lemma trimLeftSpace_Nil: "trimLeftSpace [] = []"
  by (subst trimLeftSpace.simps) simp

lemma trimLeftSpace_Cons:
  assumes "spacesOnly (c # s)"
  shows "trimLeftSpace (c # s) = (if c = CHR '' '' then trimLeftSpace s else c # s)"
proof -
  have w: "spaceWidth (c # s) = (if c = CHR '' '' then 1 else 0)"
    using assms by (rule spacesOnly_width)
  show ?thesis by (subst trimLeftSpace.simps) (simp add: w)
qed

lemma spacesOnly_trimLeftSpace: "spacesOnly s \<Longrightarrow> spacesOnly (trimLeftSpace s)"
proof (induction s)
  case Nil
  then show ?case by (simp add: trimLeftSpace_Nil)
next
  case (Cons c s)
  then show ?case using trimLeftSpace_Cons [OF Cons.prems] by (cases "c = CHR '' ''") simp_all
qed

lemma suffix_of_take_rev:
  assumes "take (length w) (rev s) = rev w"
  shows "\<exists>pre. s = pre @ w"
proof -
  have "rev s = rev w @ drop (length w) (rev s)"
    using assms append_take_drop_id [of "length w" "rev s"] by simp
  then have "rev (rev s) = rev (rev w @ drop (length w) (rev s))" by (rule arg_cong)
  then have "s = rev (drop (length w) (rev s)) @ w" by (simp only: rev_rev_ident rev_append)
  then show ?thesis by (rule exI)
qed

lemma spaceWidthRight_snoc:
  assumes "spacesOnly (ys @ [c])"
  shows "spaceWidthRight (ys @ [c]) = (if c = CHR '' '' then 1 else 0)"
proof (cases "asciiSpace c")
  case True
  then have "spaceWidth [c] \<noteq> 0" by (simp add: spaceWidth_def)
  moreover have "spacesOnly [c]" using assms by (rule spacesOnly_append_right)
  ultimately have "c = CHR '' ''" by simp
  then show ?thesis using True by (simp add: spaceWidthRight_def)
next
  case False
  then have ne: "c \<noteq> CHR '' ''" using asciiSpace_space by blast
  have rv: "rev (ys @ [c]) = c # rev ys" by simp
  let ?f = "filter (\<lambda>w. take (length w) (c # rev ys) = rev w) utf8Spaces"
  have "?f = []"
  proof (rule ccontr)
    assume "?f \<noteq> []"
    then obtain w ws where "?f = w # ws" by (meson list.exhaust)
    then have "w \<in> set ?f" by simp
    then have w: "w \<in> set utf8Spaces" and t: "take (length w) (c # rev ys) = rev w"
      by simp_all
    from t have "take (length w) (rev (ys @ [c])) = rev w" by (simp only: rv)
    from suffix_of_take_rev [OF this] obtain pre where e: "ys @ [c] = pre @ w" by blast
    have "spacesOnly (pre @ w)" using assms unfolding e .
    then have so: "spacesOnly w" by (rule spacesOnly_append_right)
    from utf8Spaces_nonempty [OF w] obtain d w' where d: "w = d # w'" by (meson list.exhaust)
    have "spaceWidth w \<noteq> 0" using w by (rule spaceWidth_utf8Spaces)
    with so d have "d = CHR '' ''" by simp
    moreover have "hd w \<noteq> CHR '' ''" using w by (rule utf8Spaces_hd)
    ultimately show False using d by simp
  qed
  then have "spaceWidthRight (ys @ [c]) = 0"
    using False by (simp add: spaceWidthRight_def)
  then show ?thesis using ne by simp
qed

lemma trimRightSpace_Nil: "trimRightSpace [] = []"
  by (subst trimRightSpace.simps) (simp add: spaceWidthRight_def)

lemma trimRightSpace_snoc:
  assumes "spacesOnly (ys @ [c])"
  shows "trimRightSpace (ys @ [c]) = (if c = CHR '' '' then trimRightSpace ys else ys @ [c])"
proof (cases "c = CHR '' ''")
  case True
  with spaceWidthRight_snoc [OF assms] have w: "spaceWidthRight (ys @ [c]) = 1" by simp
  have "trimRightSpace (ys @ [c]) = trimRightSpace (take (length (ys @ [c]) - 1) (ys @ [c]))"
    by (subst trimRightSpace.simps) (simp add: w)
  then show ?thesis using True by simp
next
  case False
  with spaceWidthRight_snoc [OF assms] have w: "spaceWidthRight (ys @ [c]) = 0" by simp
  have "trimRightSpace (ys @ [c]) = ys @ [c]"
    by (subst trimRightSpace.simps) (simp add: w)
  then show ?thesis using False by simp
qed

lemma stringsSplit_not_Nil: "stringsSplit s sep \<noteq> []"
  by (cases s) (simp_all split: list.splits)

lemma stringsSplit_snoc_sep: "stringsSplit (ys @ [sep]) sep = stringsSplit ys sep @ [[]]"
  by (induction ys) (simp_all add: stringsSplit_not_Nil split: list.splits)

lemma filter_split_trimLeftSpace:
  "spacesOnly s \<Longrightarrow>
   filter (\<lambda>p. p \<noteq> []) (stringsSplit (trimLeftSpace s) CHR '' '')
   = filter (\<lambda>p. p \<noteq> []) (stringsSplit s CHR '' '')"
proof (induction s)
  case Nil
  then show ?case by (simp add: trimLeftSpace_Nil)
next
  case (Cons c s)
  then have ih: "filter (\<lambda>p. p \<noteq> []) (stringsSplit (trimLeftSpace s) CHR '' '')
   = filter (\<lambda>p. p \<noteq> []) (stringsSplit s CHR '' '')" by simp
  show ?case
  proof (cases "c = CHR '' ''")
    case True
    then show ?thesis using trimLeftSpace_Cons [OF Cons.prems] ih by simp
  next
    case False
    then show ?thesis using trimLeftSpace_Cons [OF Cons.prems] by simp
  qed
qed

lemma filter_split_trimRightSpace:
  "spacesOnly s \<Longrightarrow>
   filter (\<lambda>p. p \<noteq> []) (stringsSplit (trimRightSpace s) CHR '' '')
   = filter (\<lambda>p. p \<noteq> []) (stringsSplit s CHR '' '')"
proof (induction s rule: rev_induct)
  case Nil
  then show ?case by (simp add: trimRightSpace_Nil)
next
  case (snoc c ys)
  have ys: "spacesOnly ys" using snoc.prems by (rule spacesOnly_append_left)
  show ?case
  proof (cases "c = CHR '' ''")
    case True
    then show ?thesis
      using trimRightSpace_snoc [OF snoc.prems] snoc.IH [OF ys]
      by (simp add: stringsSplit_snoc_sep)
  next
    case False
    then show ?thesis using trimRightSpace_snoc [OF snoc.prems] by simp
  qed
qed

lemma whitespaceTokens_Nil: "whitespaceTokens [] = []"
  by (subst whitespaceTokens.simps) simp

lemma whitespaceTokens_Cons:
  assumes "spacesOnly (c # s)"
  shows "whitespaceTokens (c # s) =
     (if c = CHR '' '' then whitespaceTokens s
      else if s = [] \<or> hd s = CHR '' '' then [c] # whitespaceTokens s
      else (case whitespaceTokens s of [] \<Rightarrow> [[c]] | t # ts \<Rightarrow> (c # t) # ts))"
proof -
  have w: "spaceWidth (c # s) = (if c = CHR '' '' then 1 else 0)"
    using assms by (rule spacesOnly_width)
  have ws: "s \<noteq> [] \<Longrightarrow> (spaceWidth s \<noteq> 0) = (hd s = CHR '' '')"
  proof -
    assume "s \<noteq> []"
    then obtain d s' where d: "s = d # s'" by (meson list.exhaust)
    have "spacesOnly (d # s')" using assms d by simp
    then have "spaceWidth (d # s') = (if d = CHR '' '' then 1 else 0)" by (rule spacesOnly_width)
    then show ?thesis using d by simp
  qed
  show ?thesis
  proof (cases "s = []")
    case True
    with w have w': "spaceWidth [c] = (if c = CHR '' '' then 1 else 0)" by simp
    show ?thesis unfolding True
      by (subst whitespaceTokens.simps) (simp add: w' whitespaceTokens_Nil)
  next
    case False
    then show ?thesis using ws [OF False]
      by (subst whitespaceTokens.simps) (simp add: w Let_def split: list.splits)
  qed
qed

lemma whitespaceTokens_spacesOnly:
  "spacesOnly s \<Longrightarrow>
   whitespaceTokens s = filter (\<lambda>p. p \<noteq> []) (stringsSplit s CHR '' '')"
proof (induction s)
  case Nil
  then show ?case by (simp add: whitespaceTokens_Nil)
next
  case (Cons c s)
  then have ih: "whitespaceTokens s = filter (\<lambda>p. p \<noteq> []) (stringsSplit s CHR '' '')"
    by simp
  note unf = whitespaceTokens_Cons [OF Cons.prems]
  show ?case
  proof (cases "c = CHR '' ''")
    case True
    then show ?thesis using unf ih by simp
  next
    case False
    show ?thesis
    proof (cases s)
      case Nil
      then show ?thesis using False unf by (simp add: whitespaceTokens_Nil)
    next
      case (Cons d s')
      obtain q qs where q: "stringsSplit s' CHR '' '' = q # qs"
        using stringsSplit_not_Nil [of s' "CHR '' ''"] by (meson list.exhaust)
      show ?thesis
      proof (cases "d = CHR '' ''")
        case True
        then show ?thesis using False unf ih Cons by simp
      next
        case d: False
        then show ?thesis using False unf ih Cons q by simp
      qed
    qed
  qed
qed

text \<open>
  Where all white space is the space byte, every token is one of the parts the code
  splits the alias into; the other parts are empty.
\<close>

lemma tokens_are_nonempty_aliasParts:
  assumes "spacesOnly a"
  shows "whitespaceTokens a = filter (\<lambda>p. p \<noteq> []) (aliasParts a)"
proof -
  let ?ne = "\<lambda>p::string. p \<noteq> []"
  have l: "spacesOnly (trimLeftSpace a)" using assms by (rule spacesOnly_trimLeftSpace)
  have "whitespaceTokens a = filter ?ne (stringsSplit a CHR '' '')"
    using assms by (rule whitespaceTokens_spacesOnly)
  also have "\<dots> = filter ?ne (stringsSplit (trimLeftSpace a) CHR '' '')"
    using filter_split_trimLeftSpace [OF assms] by simp
  also have "\<dots> = filter ?ne (stringsSplit (trimRightSpace (trimLeftSpace a)) CHR '' '')"
    using filter_split_trimRightSpace [OF l] by simp
  finally show ?thesis
    by (simp add: aliasParts_def stringsTrimSpace_def)
qed

lemma tokens_le_aliasParts:
  assumes "spacesOnly a"
  shows "length (whitespaceTokens a) \<le> length (aliasParts a)"
  using tokens_are_nonempty_aliasParts [OF assms] by simp

subsection \<open>The order of a range over a map\<close>

lemma pickOrder_Nil: "pickOrder picks [] = []"
  by (cases picks) simp_all

lemma pickOrder_single: "pickOrder picks [k] = [k]"
  by (cases picks) (simp_all add: pickOrder_Nil)

lemma length_pickOrder: "length (pickOrder picks keys) = length keys"
proof (induction picks arbitrary: keys)
  case Nil
  then show ?case by simp
next
  case (Cons n picks)
  show ?case
  proof (cases "keys = []")
    case True
    then show ?thesis by simp
  next
    case False
    let ?i = "n mod length keys"
    have i: "?i < length keys" using False by simp
    then have l: "length (take ?i keys @ drop (Suc ?i) keys) = length keys - 1" by auto
    have "length (pickOrder (n # picks) keys)
          = Suc (length (pickOrder picks (take ?i keys @ drop (Suc ?i) keys)))"
      using False by (simp add: Let_def)
    also have "\<dots> = Suc (length keys - 1)" using Cons.IH l by simp
    also have "\<dots> = length keys" using False by simp
    finally show ?thesis .
  qed
qed

lemma set_pickOrder: "set (pickOrder picks keys) = set keys"
proof (induction picks arbitrary: keys)
  case Nil
  then show ?case by simp
next
  case (Cons n picks)
  show ?case
  proof (cases "keys = []")
    case True
    then show ?thesis by simp
  next
    case False
    let ?i = "n mod length keys"
    have i: "?i < length keys" using False by simp
    have "keys = take ?i keys @ keys ! ?i # drop (Suc ?i) keys"
      using i by (rule id_take_nth_drop)
    then have "set keys = insert (keys ! ?i) (set (take ?i keys @ drop (Suc ?i) keys))"
      by (metis Un_insert_right list.simps(15) set_append)
    then show ?thesis using False Cons.IH by (simp add: Let_def)
  qed
qed

lemma pickOrder_any_order:
  "distinct keys \<Longrightarrow> distinct ys \<Longrightarrow> set ys = set keys \<Longrightarrow> \<exists>picks. pickOrder picks keys = ys"
proof (induction ys arbitrary: keys)
  case Nil
  then have "pickOrder [] keys = []" by simp
  then show ?case by blast
next
  case (Cons y ys)
  then have "y \<in> set keys" by auto
  then obtain i where i: "i < length keys" and y: "keys ! i = y"
    by (auto simp: in_set_conv_nth)
  let ?rest = "take i keys @ drop (Suc i) keys"
  have k: "keys = take i keys @ y # drop (Suc i) keys"
    using i y id_take_nth_drop by fastforce
  have d: "distinct ?rest"
    using Cons.prems(1) k by (metis distinct_append distinct.simps(2) disjoint_insert(1) list.simps(15))
  have "y \<notin> set ?rest"
    using Cons.prems(1) k by (metis Un_iff distinct.simps(2) distinct_append list.set_intros(1) set_append disjoint_iff)
  moreover have "set keys = insert y (set ?rest)"
    using k by (metis Un_insert_right list.simps(15) set_append)
  moreover have "y \<notin> set ys" and "distinct ys" using Cons.prems(2) by simp_all
  ultimately have "set ys = set ?rest" using Cons.prems(3) by auto
  from Cons.IH [OF d \<open>distinct ys\<close> this] obtain picks where p: "pickOrder picks ?rest = ys" by blast
  have "keys \<noteq> []" using i by auto
  then have "pickOrder (i # picks) keys = y # ys"
    using i y p by (simp add: Let_def)
  then show ?case by blast
qed

subsection \<open>Auxiliary facts\<close>

lemma aliasParts_Nil: "aliasParts [] = [[]]"
  by code_simp

lemma aliasParts_three_nonempty: "3 \<le> length (aliasParts a) \<Longrightarrow> a \<noteq> []"
  using aliasParts_Nil by auto

lemma methodSet_single: "methodSet [(m, True)] = {m}"
  by (auto simp: methodSet_def accepts_def)


lemma acceptedMethods_fresh:
  assumes "acceptedMethodsCache h = None"
  shows "fst (acceptedMethods h) =
     (if length (aliasParts (alias h)) = 2 \<and> validMethod (stringsToUpper (aliasParts (alias h) ! 0))
      then [(stringsToUpper (aliasParts (alias h) ! 0), True)] else allMethods)"
proof (cases "alias h = []")
  case True
  then show ?thesis using assms by (simp add: acceptedMethods_def aliasParts_Nil)
next
  case False
  then show ?thesis using assms by (simp add: acceptedMethods_def Let_def)
qed


lemma cacheSound_acceptedMethods: "cacheSound h \<Longrightarrow> cacheSound (snd (acceptedMethods h))"
  by (cases "acceptedMethodsCache h") (auto simp: cacheSound_def acceptedMethods_def Let_def)

lemma acceptedMethods_keeps_action: "action (snd (acceptedMethods h)) = action h"
  by (auto simp: acceptedMethods_def Let_def split: option.splits)

lemma bindHandlers_fails:
  "pattern h = Inl e \<Longrightarrow> \<exists>e'. bindHandlers (before @ h # after) = Inl e'"
  by (induction before) (auto split: sum.splits)


lemma bindActions_restrict:
  "bindActions m ''restrict'' p actions =
     map (\<lambda>a. \<lparr>routePath = p, alias = (case m a of Some x \<Rightarrow> x | None \<Rightarrow> []), action = a,
                acceptedMethodsCache = None\<rparr>) (filter (\<lambda>a. m a \<noteq> None) actions)"
  by (induction actions) (auto split: option.splits)

lemma bindActions_cacheSound: "list_all cacheSound (bindActions m mappingPolicy p actions)"
  by (induction actions) (auto simp: cacheSound_def split: option.splits)

lemma createActionHandlers_cacheSound:
  "createActionHandlers route actions = Inr hs \<Longrightarrow> list_all cacheSound hs"
  by (auto simp: createActionHandlers_def Let_def bindActions_cacheSound
      split: option.splits dyn.splits)



lemma filterRoutes_no_services:
  "list_all routeShaped routes \<Longrightarrow> filterRoutes compile routes [] = Inr []"
proof (induction routes)
  case Nil
  then show ?case by simp
next
  case (Cons route routes)
  then have sh: "routeShaped route" and rest: "filterRoutes compile routes [] = Inr []"
    by simp_all
  from sh obtain p where p: "map_of route ''path'' = Some (DString p)"
    by (auto simp: routeShaped_def split: option.splits dyn.splits)
  have c: "createActionHandlers route [] = Inr []"
    using p by (simp add: createActionHandlers_def)
  from sh have w: "map_of route ''whitelist'' = None
      \<or> (\<exists>w. map_of route ''whitelist'' = Some (DStringSlice w))"
    by (auto simp: routeShaped_def split: option.splits dyn.splits)
  then show ?case
    using c rest by auto
qed

lemma ServeHTTP_writes:
  "fst (ServeHTTP c h req) = []
   \<or> fst (ServeHTTP c h req)
        = sendReponse c (Call c (action h) (paramsFromRequest c req))
   \<or> fst (ServeHTTP c h req)
        = sendReponse c (PayloadError (''Invalid HTTP Method - accepted methods: [''
            @ joinSpace (pickOrder (RangeOrder c) (map fst (fst (acceptedMethods h)))) @ '']''))"
proof -
  obtain m h' where a: "acceptedMethods h = (m, h')" by (cases "acceptedMethods h")
  have "action h' = action h"
    using a acceptedMethods_keeps_action [of h] by simp
  then show ?thesis
    using a by (simp add: ServeHTTP_def callAction_def invalidHttpMethodError_def)
qed

lemma ServeHTTP_cacheSound: "cacheSound h \<Longrightarrow> cacheSound (snd (ServeHTTP c h req))"
  using cacheSound_acceptedMethods [of h]
  by (simp add: ServeHTTP_def split_beta)

subsection \<open>The whitelist\<close>

text \<open>
  Claim C1 says that the whitelist \<open>["math.*"]\<close> includes an action exactly when its
  service segment is \<open>math\<close>. The code includes more. For the action \<open>mathx.add\<close>, of
  service \<open>mathx\<close>, the service-wildcard rule finds the services \<open>math\<close> and \<open>mathx\<close>
  different and the action-wildcard rule does not apply, but the loop goes on to
  compile the item \<open>math.*\<close> as a regular expression (\<open>math\<close>, then any text), which
  matches \<open>mathx.add\<close> without anchors: \<open>shouldInclude\<close> answers true. The
  action-wildcard rule has no such second chance, since an item like \<open>*.add\<close> is no
  regular expression: \<open>["*.add"]\<close> leaves \<open>math.addx\<close> out.
\<close>

theorem math_wildcard_includes_mathx:
  "FindStringSubmatch actionWildCardRegex ''math.*'' = [''math.*'', ''math'']
   \<and> FindStringSubmatch serviceActionRegex ''mathx.add'' = [''mathx.add'', ''mathx'', ''add'']
   \<and> FindStringSubmatch serviceWildCardRegex ''math.*'' = []
   \<and> regexpCompile ''math.*'' =
       Compiled (Concat (Literal CHR ''m'') (Concat (Literal CHR ''a'')
         (Concat (Literal CHR ''t'') (Concat (Literal CHR ''h'') (Star AnyCharNotNL)))))
   \<and> shouldInclude goRegexp [''math.*''] ''mathx.add''
   \<and> shouldInclude goRegexp [''math.*''] ''math.add''
   \<and> regexpCompile ''*.add'' = SyntaxError
   \<and> \<not> shouldInclude goRegexp [''*.add''] ''math.addx''"
  by code_simp

subsection \<open>Serving a request\<close>

text \<open>
  Claim C2 says that a request whose method the handler does not accept is answered
  with status 500 and a body naming the accepted methods, also when the method is one
  of GET, POST, PUT and DELETE. The code does so only in the \<open>default\<close> branch of its
  switch, which these four methods never reach. A handler with the alias \<open>GET users\<close>
  accepts GET alone; a PATCH request to it is answered with status 500 and the error
  naming GET, but a POST request to it writes nothing: no status and no body.
\<close>

theorem ServeHTTP_unaccepted_post_writes_nothing:
  "acceptedMethods \<lparr>routePath = ''/'', alias = ''GET users'', action = ''users.list'',
      acceptedMethodsCache = None\<rparr>
   = ([(''GET'', True)], \<lparr>routePath = ''/'', alias = ''GET users'', action = ''users.list'',
      acceptedMethodsCache = Some [(''GET'', True)]\<rparr>)
   \<and> fst (ServeHTTP c \<lparr>routePath = ''/'', alias = ''GET users'', action = ''users.list'',
      acceptedMethodsCache = None\<rparr> \<lparr>Method = ''PATCH'', ParseForm = Inr [], Body = Inr []\<rparr>)
     = [WriteHeader 500,
        Write (PayloadToBytes c
          (PayloadError ''Invalid HTTP Method - accepted methods: [GET]''))]
   \<and> fst (ServeHTTP c \<lparr>routePath = ''/'', alias = ''GET users'', action = ''users.list'',
      acceptedMethodsCache = None\<rparr> \<lparr>Method = ''POST'', ParseForm = Inr [], Body = Inr []\<rparr>) = []"
proof -
  have a: "acceptedMethods \<lparr>routePath = ''/'', alias = ''GET users'', action = ''users.list'',
      acceptedMethodsCache = None\<rparr>
   = ([(''GET'', True)], \<lparr>routePath = ''/'', alias = ''GET users'', action = ''users.list'',
      acceptedMethodsCache = Some [(''GET'', True)]\<rparr>)"
    by code_simp
  show ?thesis
    by (simp add: a ServeHTTP_def accepts_def invalidHttpMethodError_def sendReponse_def
        errorStatusCode_def pickOrder_single)
qed

text \<open>
  Claim C6 says that the status is 200 when the result payload is no error and 500 when
  it is, parse failures included. A failure to parse the request is not answered with
  500: \<open>paramsFromRequest\<close> turns it into an error payload, which \<open>ServeHTTP\<close> passes
  to the call as its parameters, and the status is that of the call's result. With an
  action that answers \<open>pong\<close> whatever its parameters, a GET request whose form does
  not parse, and one whose body cannot be read, are both answered with status 200.
\<close>

theorem parse_failure_answered_200:
  "IsError (paramsFromRequest
      \<lparr>Call = (\<lambda>name params. PayloadValue (DString ''pong'')),
        PayloadToBytes = (\<lambda>p. case p of PayloadError m \<Rightarrow> m | PayloadValue v \<Rightarrow> ''pong''),
        BytesToPayload = (\<lambda>b. PayloadValue (DString b)), MapArray = (\<lambda>p. []),
        RangeOrder = []\<rparr>
      \<lparr>Method = ''GET'', ParseForm = Inl ''invalid URL escape'', Body = Inr []\<rparr>)
   \<and> fst (ServeHTTP
      \<lparr>Call = (\<lambda>name params. PayloadValue (DString ''pong'')),
        PayloadToBytes = (\<lambda>p. case p of PayloadError m \<Rightarrow> m | PayloadValue v \<Rightarrow> ''pong''),
        BytesToPayload = (\<lambda>b. PayloadValue (DString b)), MapArray = (\<lambda>p. []),
        RangeOrder = []\<rparr>
      \<lparr>routePath = ''/'', alias = [], action = ''health.ping'', acceptedMethodsCache = None\<rparr>
      \<lparr>Method = ''GET'', ParseForm = Inl ''invalid URL escape'', Body = Inr []\<rparr>)
     = [WriteHeader 200, Write ''pong'']
   \<and> IsError (paramsFromRequest
      \<lparr>Call = (\<lambda>name params. PayloadValue (DString ''pong'')),
        PayloadToBytes = (\<lambda>p. case p of PayloadError m \<Rightarrow> m | PayloadValue v \<Rightarrow> ''pong''),
        BytesToPayload = (\<lambda>b. PayloadValue (DString b)), MapArray = (\<lambda>p. []),
        RangeOrder = []\<rparr>
      \<lparr>Method = ''GET'', ParseForm = Inr [], Body = Inl ''unexpected EOF''\<rparr>)
   \<and> fst (ServeHTTP
      \<lparr>Call = (\<lambda>name params. PayloadValue (DString ''pong'')),
        PayloadToBytes = (\<lambda>p. case p of PayloadError m \<Rightarrow> m | PayloadValue v \<Rightarrow> ''pong''),
        BytesToPayload = (\<lambda>b. PayloadValue (DString b)), MapArray = (\<lambda>p. []),
        RangeOrder = []\<rparr>
      \<lparr>routePath = ''/'', alias = [], action = ''health.ping'', acceptedMethodsCache = None\<rparr>
      \<lparr>Method = ''GET'', ParseForm = Inr [], Body = Inl ''unexpected EOF''\<rparr>)
     = [WriteHeader 200, Write ''pong'']"
  by (simp add: ServeHTTP_def acceptedMethods_def accepts_def allMethods_def callAction_def
      sendReponse_def paramsFromRequest_def paramsFromRequestForm_def succesStatusCode_def
      errorStatusCode_def)

text \<open>
  Claim C6 as amended. The status \<open>ServeHTTP\<close> writes is that of the payload it sends:
  for a method the handler accepts the payload is the result of the call, so the
  response is 500 with the serialized error when the call fails and 200 with the
  serialized value when it succeeds; for a method that is none of GET, POST, PUT and
  DELETE the payload is the error naming the accepted methods, and the status 500.
  Whatever the request, no status but 200 or 500 is written, and never two.
\<close>

theorem ServeHTTP_status_of_result:
  "(Method req \<in> set validMethods \<and> accepts (fst (acceptedMethods h)) (Method req) \<longrightarrow>
      fst (ServeHTTP c h req)
        = [WriteHeader
             (if IsError (Call c (action h) (paramsFromRequest c req)) then 500 else 200),
           Write (PayloadToBytes c (Call c (action h) (paramsFromRequest c req)))])
   \<and> (Method req \<notin> set validMethods \<longrightarrow>
      fst (ServeHTTP c h req)
        = [WriteHeader 500,
           Write (PayloadToBytes c (PayloadError
             (''Invalid HTTP Method - accepted methods: [''
              @ joinSpace (pickOrder (RangeOrder c) (map fst (fst (acceptedMethods h))))
              @ '']'')))])
   \<and> (statuses (fst (ServeHTTP c h req)) = [] \<or> statuses (fst (ServeHTTP c h req)) = [200]
      \<or> statuses (fst (ServeHTTP c h req)) = [500])"
proof (intro conjI impI)
  obtain m h' where a: "acceptedMethods h = (m, h')" by (cases "acceptedMethods h")
  have act: "action h' = action h"
    using a acceptedMethods_keeps_action [of h] by simp
  {
    assume "Method req \<in> set validMethods \<and> accepts (fst (acceptedMethods h)) (Method req)"
    then have "Method req \<in> {''GET'', ''POST'', ''PUT'', ''DELETE''}" and "accepts m (Method req)"
      using a by (simp_all add: validMethods_def)
    then show "fst (ServeHTTP c h req)
        = [WriteHeader
             (if IsError (Call c (action h) (paramsFromRequest c req)) then 500 else 200),
           Write (PayloadToBytes c (Call c (action h) (paramsFromRequest c req)))]"
      using a act
      by (auto simp: ServeHTTP_def callAction_def sendReponse_def succesStatusCode_def
          errorStatusCode_def)
  }
  {
    assume "Method req \<notin> set validMethods"
    then show "fst (ServeHTTP c h req)
        = [WriteHeader 500,
           Write (PayloadToBytes c (PayloadError
             (''Invalid HTTP Method - accepted methods: [''
              @ joinSpace (pickOrder (RangeOrder c) (map fst (fst (acceptedMethods h))))
              @ '']'')))]"
      using a
      by (simp add: ServeHTTP_def invalidHttpMethodError_def sendReponse_def
          errorStatusCode_def validMethods_def)
  }
  have s: "statuses (sendReponse c p) = [200] \<or> statuses (sendReponse c p) = [500]" for p
    by (simp add: sendReponse_def succesStatusCode_def errorStatusCode_def statuses_def)
  from ServeHTTP_writes [of c h req]
  show "statuses (fst (ServeHTTP c h req)) = [] \<or> statuses (fst (ServeHTTP c h req)) = [200]
      \<or> statuses (fst (ServeHTTP c h req)) = [500]"
  proof (elim disjE)
    assume "fst (ServeHTTP c h req) = []"
    then show ?thesis by (simp add: statuses_def)
  next
    assume "fst (ServeHTTP c h req)
        = sendReponse c (Call c (action h) (paramsFromRequest c req))"
    then show ?thesis using s by simp
  next
    assume "fst (ServeHTTP c h req)
        = sendReponse c (PayloadError (''Invalid HTTP Method - accepted methods: [''
            @ joinSpace (pickOrder (RangeOrder c) (map fst (fst (acceptedMethods h)))) @ '']''))"
    then show ?thesis using s by simp
  qed
qed

theorem ServeHTTP_status_of_result_witness:
  "fst (ServeHTTP
      \<lparr>Call = (\<lambda>name params. if name = ''math.add'' then PayloadValue (DString ''3'')
                               else PayloadError ''service not found''),
        PayloadToBytes = (\<lambda>p. case p of PayloadError m \<Rightarrow> m | PayloadValue v \<Rightarrow> ''3''),
        BytesToPayload = (\<lambda>b. PayloadValue (DString b)), MapArray = (\<lambda>p. []),
        RangeOrder = []\<rparr>
      \<lparr>routePath = ''/'', alias = [], action = ''math.add'', acceptedMethodsCache = None\<rparr>
      \<lparr>Method = ''GET'', ParseForm = Inr [(''a'', [''1'']), (''b'', [''2''])], Body = Inr []\<rparr>)
     = [WriteHeader 200, Write ''3'']
   \<and> fst (ServeHTTP
      \<lparr>Call = (\<lambda>name params. if name = ''math.add'' then PayloadValue (DString ''3'')
                               else PayloadError ''service not found''),
        PayloadToBytes = (\<lambda>p. case p of PayloadError m \<Rightarrow> m | PayloadValue v \<Rightarrow> ''3''),
        BytesToPayload = (\<lambda>b. PayloadValue (DString b)), MapArray = (\<lambda>p. []),
        RangeOrder = []\<rparr>
      \<lparr>routePath = ''/'', alias = [], action = ''math.sub'', acceptedMethodsCache = None\<rparr>
      \<lparr>Method = ''GET'', ParseForm = Inr [(''a'', [''1'']), (''b'', [''2''])], Body = Inr []\<rparr>)
     = [WriteHeader 500, Write ''service not found'']
   \<and> fst (ServeHTTP
      \<lparr>Call = (\<lambda>name params. if name = ''math.add'' then PayloadValue (DString ''3'')
                               else PayloadError ''service not found''),
        PayloadToBytes = (\<lambda>p. case p of PayloadError m \<Rightarrow> m | PayloadValue v \<Rightarrow> ''3''),
        BytesToPayload = (\<lambda>b. PayloadValue (DString b)), MapArray = (\<lambda>p. []),
        RangeOrder = [2, 0]\<rparr>
      \<lparr>routePath = ''/'', alias = [], action = ''math.add'', acceptedMethodsCache = None\<rparr>
      \<lparr>Method = ''PATCH'', ParseForm = Inr [], Body = Inr []\<rparr>)
     = [WriteHeader 500, Write ''Invalid HTTP Method - accepted methods: [PUT GET POST DELETE]'']"
proof -
  let ?c = "\<lparr>Call = (\<lambda>name params. if name = ''math.add'' then PayloadValue (DString ''3'')
                               else PayloadError ''service not found''),
        PayloadToBytes = (\<lambda>p. case p of PayloadError m \<Rightarrow> m | PayloadValue v \<Rightarrow> ''3''),
        BytesToPayload = (\<lambda>b. PayloadValue (DString b)), MapArray = (\<lambda>p. []),
        RangeOrder = []\<rparr>"
  let ?c' = "\<lparr>Call = (\<lambda>name params. if name = ''math.add'' then PayloadValue (DString ''3'')
                               else PayloadError ''service not found''),
        PayloadToBytes = (\<lambda>p. case p of PayloadError m \<Rightarrow> m | PayloadValue v \<Rightarrow> ''3''),
        BytesToPayload = (\<lambda>b. PayloadValue (DString b)), MapArray = (\<lambda>p. []),
        RangeOrder = [2, 0]\<rparr>"
  let ?add = "\<lparr>routePath = ''/'', alias = [], action = ''math.add'', acceptedMethodsCache = None\<rparr>"
  let ?sub = "\<lparr>routePath = ''/'', alias = [], action = ''math.sub'', acceptedMethodsCache = None\<rparr>"
  let ?get = "\<lparr>Method = ''GET'', ParseForm = Inr [(''a'', [''1'']), (''b'', [''2''])], Body = Inr []\<rparr>"
  let ?patch = "\<lparr>Method = ''PATCH'', ParseForm = Inr [], Body = Inr []\<rparr>"
  have m: "fst (acceptedMethods ?add) = allMethods" "fst (acceptedMethods ?sub) = allMethods"
    by (simp_all add: acceptedMethods_def)
  have g: "Method ?get \<in> set validMethods \<and> accepts allMethods (Method ?get)"
    by (simp add: validMethods_def accepts_def allMethods_def)
  have p: "Method ?patch \<notin> set validMethods"
    by (simp add: validMethods_def)
  have 1: "fst (ServeHTTP ?c ?add ?get) = [WriteHeader 200, Write ''3'']"
    using ServeHTTP_status_of_result [of ?get ?add ?c] g m by simp
  have 2: "fst (ServeHTTP ?c ?sub ?get) = [WriteHeader 500, Write ''service not found'']"
    using ServeHTTP_status_of_result [of ?get ?sub ?c] g m by simp
  have 3: "fst (ServeHTTP ?c' ?add ?patch)
     = [WriteHeader 500, Write ''Invalid HTTP Method - accepted methods: [PUT GET POST DELETE]'']"
    using ServeHTTP_status_of_result [of ?patch ?add ?c'] p m by (simp add: allMethods_def)
  show ?thesis using 1 2 3 by simp
qed

subsection \<open>Paths and aliases\<close>

text \<open>
  Claim C3 says that no derived URL pattern holds a doubled separator. The route path
  \<open>/\<close> and the action \<open>math.add\<close> do give \<open>/math/add\<close>. But \<open>pattern\<close> replaces
  \<open>//\<close> by \<open>/\<close> in one pass, which turns three separators into two: the route path
  \<open>/\<close> with the alias \<open>GET /users\<close> gives \<open>///users\<close> and then the pattern \<open>//users\<close>.
\<close>

theorem pattern_keeps_doubled_separator:
  "pattern \<lparr>routePath = ''/'', alias = [], action = ''math.add'',
      acceptedMethodsCache = None\<rparr> = Inr ''/math/add''
   \<and> aliasPath \<lparr>routePath = ''/'', alias = ''GET /users'', action = ''users.list'',
      acceptedMethodsCache = None\<rparr> = Inr ''/users''
   \<and> pattern \<lparr>routePath = ''/'', alias = ''GET /users'', action = ''users.list'',
      acceptedMethodsCache = None\<rparr> = Inr ''//users''"
  by code_simp

lemma three_parts_panic:
  assumes "3 \<le> length (aliasParts (alias h))"
  shows "aliasPath h = Inl (InvalidAliasFormat (''Invalid alias format! -> '' @ alias h))
         \<and> pattern h = Inl (InvalidAliasFormat (''Invalid alias format! -> '' @ alias h))
         \<and> (\<exists>e. bindHandlers (before @ h # after) = Inl e)
         \<and> fst (acceptedMethods (h\<lparr>acceptedMethodsCache := None\<rparr>)) = allMethods"
proof -
  have ne: "alias h \<noteq> []" using assms by (rule aliasParts_three_nonempty)
  have a: "aliasPath h = Inl (InvalidAliasFormat (''Invalid alias format! -> '' @ alias h))"
    using assms ne by (simp add: aliasPath_def Let_def)
  then have p: "pattern h = Inl (InvalidAliasFormat (''Invalid alias format! -> '' @ alias h))"
    by (simp add: pattern_def)
  have m: "fst (acceptedMethods (h\<lparr>acceptedMethodsCache := None\<rparr>)) = allMethods"
    using assms acceptedMethods_fresh [of "h\<lparr>acceptedMethodsCache := None\<rparr>"] by simp
  show ?thesis
    using a p m bindHandlers_fails [OF p] by simp
qed

text \<open>
  Claim C4 says that an alias of three or more tokens separated by white space is
  rejected by path derivation and by accepted-method derivation alike. Neither holds
  as stated. For \<open>GET POST users\<close>, three tokens, \<open>acceptedMethods\<close> rejects
  nothing and returns the four methods. And the code does not count tokens: it splits
  the trimmed alias at every single space. The three tokens \<open>GET\<close>, \<open>POST\<close> and
  \<open>users\<close> separated by tabs (the byte 9) are one part for the code, which derives the
  path without complaint; the two tokens of \<open>GET  users\<close>, separated by two spaces,
  are three parts, and \<open>aliasPath\<close> panics.
\<close>

theorem three_token_alias_not_rejected:
  "whitespaceTokens ''GET POST users'' = [''GET'', ''POST'', ''users'']
   \<and> fst (acceptedMethods \<lparr>routePath = ''/'', alias = ''GET POST users'',
        action = ''users.list'', acceptedMethodsCache = None\<rparr>)
     = [(''GET'', True), (''POST'', True), (''PUT'', True), (''DELETE'', True)]
   \<and> whitespaceTokens (''GET'' @ [CHR 0x09] @ ''POST'' @ [CHR 0x09] @ ''users'')
     = [''GET'', ''POST'', ''users'']
   \<and> aliasPath \<lparr>routePath = ''/'', alias = ''GET'' @ [CHR 0x09] @ ''POST'' @ [CHR 0x09] @ ''users'',
        action = ''users.list'', acceptedMethodsCache = None\<rparr>
     = Inr (''GET'' @ [CHR 0x09] @ ''POST'' @ [CHR 0x09] @ ''users'')
   \<and> pattern \<lparr>routePath = ''/'', alias = ''GET'' @ [CHR 0x09] @ ''POST'' @ [CHR 0x09] @ ''users'',
        action = ''users.list'', acceptedMethodsCache = None\<rparr>
     = Inr (''/GET'' @ [CHR 0x09] @ ''POST'' @ [CHR 0x09] @ ''users'')
   \<and> whitespaceTokens ''GET  users'' = [''GET'', ''users'']
   \<and> aliasPath \<lparr>routePath = ''/'', alias = ''GET  users'', action = ''users.list'',
        acceptedMethodsCache = None\<rparr>
     = Inl (InvalidAliasFormat ''Invalid alias format! -> GET  users'')"
  by code_simp

text \<open>
  Claim C4 as amended. An alias whose white space is made of space bytes, and which
  splits into three or more tokens, is a fatal error of path derivation: \<open>aliasPath\<close>
  panics, so does \<open>pattern\<close>, and so does binding any list of handlers that holds
  such a handler, which the router's population does before a handler can serve.
  Accepted-method derivation rejects nothing: for such an alias it answers the four
  methods.
\<close>

theorem three_tokens_rejected_by_path:
  assumes "spacesOnly (alias h)" and "3 \<le> length (whitespaceTokens (alias h))"
  shows "aliasPath h = Inl (InvalidAliasFormat (''Invalid alias format! -> '' @ alias h))
         \<and> pattern h = Inl (InvalidAliasFormat (''Invalid alias format! -> '' @ alias h))
         \<and> (\<exists>e. bindHandlers (before @ h # after) = Inl e)
         \<and> fst (acceptedMethods (h\<lparr>acceptedMethodsCache := None\<rparr>)) = allMethods"
proof -
  have "length (whitespaceTokens (alias h)) \<le> length (aliasParts (alias h))"
    using assms(1) by (rule tokens_le_aliasParts)
  with assms(2) have "3 \<le> length (aliasParts (alias h))" by simp
  then show ?thesis by (rule three_parts_panic)
qed

theorem three_tokens_rejected_by_path_witness:
  "spacesOnly ''GET POST users''
   \<and> 3 \<le> length (whitespaceTokens ''GET POST users'')
   \<and> pattern \<lparr>routePath = ''/'', alias = ''GET POST users'', action = ''users.list'',
        acceptedMethodsCache = None\<rparr>
     = Inl (InvalidAliasFormat ''Invalid alias format! -> GET POST users'')"
proof -
  have s: "spacesOnly ''GET POST users''" by code_simp
  have t: "3 \<le> length (whitespaceTokens ''GET POST users'')" by code_simp
  show ?thesis
    using s t three_tokens_rejected_by_path [of "\<lparr>routePath = ''/'', alias = ''GET POST users'',
      action = ''users.list'', acceptedMethodsCache = None\<rparr>"]
    by simp
qed



subsection \<open>Building the route table\<close>

text \<open>
  Claim C5: under the mapping policy \<open>restrict\<close> with the alias map
  \<open>{"GET users": "users.list"}\<close>, the handlers built from the whitelisted actions are
  one handler of \<open>users.list\<close> with the alias \<open>GET users\<close> for each time the action is
  listed, hence exactly one when it is listed once, and none for any other action;
  that handler accepts GET alone.
\<close>

theorem restrict_binds_aliased_only:
  assumes "map_of route ''path'' = Some (DString p)"
      and "map_of route ''mappingPolicy'' = Some (DString ''restrict'')"
      and "map_of route ''aliases'' = Some (DStringMap [(''GET users'', ''users.list'')])"
  shows "createActionHandlers route actions =
           Inr (map (\<lambda>a. \<lparr>routePath = p, alias = ''GET users'', action = ''users.list'',
                          acceptedMethodsCache = None\<rparr>)
                  (filter (\<lambda>a. a = ''users.list'') actions))
         \<and> methodSet (fst (acceptedMethods \<lparr>routePath = p, alias = ''GET users'',
                action = ''users.list'', acceptedMethodsCache = None\<rparr>)) = {''GET''}"
proof
  have inv: "invertStringMap [(''GET users'', ''users.list'')] = [''users.list'' \<mapsto> ''GET users'']"
    by (simp add: invertStringMap_def)
  have f: "filter (\<lambda>a. [''users.list'' \<mapsto> ''GET users''] a \<noteq> None) actions
           = filter (\<lambda>a. a = ''users.list'') actions"
    by (rule filter_cong) auto
  have "map (\<lambda>a. \<lparr>routePath = p,
             alias = (case [''users.list'' \<mapsto> ''GET users''] a of Some x \<Rightarrow> x | None \<Rightarrow> []),
             action = a, acceptedMethodsCache = None\<rparr>) (filter (\<lambda>a. a = ''users.list'') actions)
        = map (\<lambda>a. \<lparr>routePath = p, alias = ''GET users'', action = ''users.list'',
                          acceptedMethodsCache = None\<rparr>)
                  (filter (\<lambda>a. a = ''users.list'') actions)"
    by (rule map_cong) auto
  then show "createActionHandlers route actions =
           Inr (map (\<lambda>a. \<lparr>routePath = p, alias = ''GET users'', action = ''users.list'',
                          acceptedMethodsCache = None\<rparr>)
                  (filter (\<lambda>a. a = ''users.list'') actions))"
    using assms
    by (simp add: createActionHandlers_def routeMappingPolicy_def routeAliases_def inv
        bindActions_restrict f)
next
  have parts: "aliasParts ''GET users'' = [''GET'', ''users'']" by code_simp
  have up: "stringsToUpper ''GET'' = ''GET''" by code_simp
  have "fst (acceptedMethods \<lparr>routePath = p, alias = ''GET users'',
                action = ''users.list'', acceptedMethodsCache = None\<rparr>) = [(''GET'', True)]"
    by (simp add: acceptedMethods_def parts up validMethod_def validMethods_def Let_def
        del: stringsToUpper.simps)
  then show "methodSet (fst (acceptedMethods \<lparr>routePath = p, alias = ''GET users'',
                action = ''users.list'', acceptedMethodsCache = None\<rparr>)) = {''GET''}"
    by (simp add: methodSet_single)
qed

theorem restrict_binds_aliased_only_witness:
  "createActionHandlers
     [(''path'', DString ''/api''), (''mappingPolicy'', DString ''restrict''),
      (''aliases'', DStringMap [(''GET users'', ''users.list'')])]
     [''users.create'', ''users.list'', ''math.add'']
   = Inr [\<lparr>routePath = ''/api'', alias = ''GET users'', action = ''users.list'',
            acceptedMethodsCache = None\<rparr>]"
proof -
  let ?route = "[(''path'', DString ''/api''), (''mappingPolicy'', DString ''restrict''),
      (''aliases'', DStringMap [(''GET users'', ''users.list'')])]"
  have p: "map_of ?route ''path'' = Some (DString ''/api'')" by simp
  have m: "map_of ?route ''mappingPolicy'' = Some (DString ''restrict'')" by simp
  have a: "map_of ?route ''aliases'' = Some (DStringMap [(''GET users'', ''users.list'')])" by simp
  show ?thesis
    using restrict_binds_aliased_only [OF p m a, of "[''users.create'', ''users.list'', ''math.add'']"]
    by simp
qed



text \<open>
  Claim C7: when the registry answers the query for the services with an error,
  \<open>fetchServices\<close> returns the empty listing, and with it \<open>filterActions\<close> returns no
  handler and the router is populated with no binding, whatever the routes and
  whatever the whitelists hold. The routes have the shape of the settings: a string
  under \<open>path\<close>, and under \<open>whitelist\<close> a list of strings if anything.
\<close>

theorem registry_error_gives_no_handlers:
  assumes "IsError (Call c ''$node.services'' servicesQuery)"
      and "map_of settings ''routes'' = Some (DMapSlice routes)"
      and "list_all routeShaped routes"
  shows "fetchServices c = []
         \<and> filterActions compile settings (fetchServices c) = Inr []
         \<and> populateActionsRouter compile c settings = Inr []"
proof -
  have f: "fetchServices c = []"
    using assms(1) by (simp add: fetchServices_def)
  have a: "filterActions compile settings [] = Inr []"
    using assms(2) filterRoutes_no_services [OF assms(3)] by (simp add: filterActions_def)
  show ?thesis
    using f a by (simp add: populateActionsRouter_def)
qed

theorem registry_error_gives_no_handlers_witness:
  "IsError (Call \<lparr>Call = (\<lambda>name params. PayloadError ''registry unavailable''),
        PayloadToBytes = (\<lambda>p. []), BytesToPayload = (\<lambda>b. PayloadValue DNil),
        MapArray = (\<lambda>p. []), RangeOrder = []\<rparr> ''$node.services'' servicesQuery)
   \<and> list_all routeShaped defaultRoutes
   \<and> fetchServices \<lparr>Call = (\<lambda>name params. PayloadError ''registry unavailable''),
        PayloadToBytes = (\<lambda>p. []), BytesToPayload = (\<lambda>b. PayloadValue DNil),
        MapArray = (\<lambda>p. []), RangeOrder = []\<rparr> = []
   \<and> filterActions goRegexp [(''port'', DString ''3100''), (''routes'', DMapSlice defaultRoutes)]
        (fetchServices \<lparr>Call = (\<lambda>name params. PayloadError ''registry unavailable''),
        PayloadToBytes = (\<lambda>p. []), BytesToPayload = (\<lambda>b. PayloadValue DNil),
        MapArray = (\<lambda>p. []), RangeOrder = []\<rparr>) = Inr []"
proof -
  let ?c = "\<lparr>Call = (\<lambda>name params. PayloadError ''registry unavailable''),
        PayloadToBytes = (\<lambda>p. []), BytesToPayload = (\<lambda>b. PayloadValue DNil),
        MapArray = (\<lambda>p. []), RangeOrder = []\<rparr>"
  let ?settings = "[(''port'', DString ''3100''), (''routes'', DMapSlice defaultRoutes)]"
  have e: "IsError (Call ?c ''$node.services'' servicesQuery)" by simp
  have r: "map_of ?settings ''routes'' = Some (DMapSlice defaultRoutes)" by simp
  have s: "list_all routeShaped defaultRoutes"
    by (simp add: defaultRoutes_def routeShaped_def)
  show ?thesis
    using e s registry_error_gives_no_handlers [OF e r s, of goRegexp] by blast
qed

end
